theory Spec2Isabelle
  imports Complex_Main
begin

section \<open>Image batches\<close>

text \<open>
  The module \<^verbatim>\<open>cs231n/data_augmentation.py\<close> works on numpy arrays of four axes
  \<open>(N, C, H, W)\<close>: \<open>N\<close> images of \<open>C\<close> channels, \<open>H\<close> rows and \<open>W\<close> columns. An array is
  its shape together with its samples as nested lists; the shape is kept beside the
  samples because an array with an empty axis still has the other extents
  (\<^verbatim>\<open>N, C, H, W = X.shape\<close> is the first line of most functions). The sample type is
  a parameter: the flips and crops move samples, contrast and tint compute with the
  operations of the sample type, of which nothing is assumed.
\<close>

record 'a ndarray =
  shape :: "nat \<times> nat \<times> nat \<times> nat"
  vals :: "'a list list list list"

definition well_shaped :: "'a ndarray \<Rightarrow> bool" where
  "well_shaped X = (case shape X of (N, C, H, W) \<Rightarrow>
     length (vals X) = N \<and>
     (\<forall>img \<in> set (vals X). length img = C \<and>
        (\<forall>ch \<in> set img. length ch = H \<and>
           (\<forall>row \<in> set ch. length row = W))))"

definition pixel :: "'a ndarray \<Rightarrow> nat \<Rightarrow> nat \<Rightarrow> nat \<Rightarrow> nat \<Rightarrow> 'a" where
  "pixel X n c h w = vals X ! n ! c ! h ! w"

datatype error = AssertionError | ValueError string | TypeError

section \<open>Slices\<close>

text \<open>
  A slice \<^verbatim>\<open>a:b\<close> of an axis of length \<open>n\<close>, as Python reads it: a missing start is
  0 and a missing stop is \<open>n\<close>, a negative bound counts from the end, and every bound is clamped
  into \<open>0..n\<close>; the slice is empty when the stop is not beyond the start. No slice raises.
\<close>

definition slice_bound :: "nat \<Rightarrow> int \<Rightarrow> nat" where
  "slice_bound n i = (if i < 0 then nat (int n + i) else min n (nat i))"

definition slice_start :: "nat \<Rightarrow> int option \<Rightarrow> nat" where
  "slice_start n lo = (case lo of None \<Rightarrow> 0 | Some i \<Rightarrow> slice_bound n i)"

definition slice_stop :: "nat \<Rightarrow> int option \<Rightarrow> nat" where
  "slice_stop n hi = (case hi of None \<Rightarrow> n | Some i \<Rightarrow> slice_bound n i)"

definition slice_len :: "nat \<Rightarrow> int option \<Rightarrow> int option \<Rightarrow> nat" where
  "slice_len n lo hi = slice_stop n hi - slice_start n lo"

definition py_slice :: "int option \<Rightarrow> int option \<Rightarrow> 'a list \<Rightarrow> 'a list" where
  "py_slice lo hi xs =
     take (slice_stop (length xs) hi - slice_start (length xs) lo)
       (drop (slice_start (length xs) lo) xs)"

text \<open>\<^verbatim>\<open>X[:, :, r0:r1, c0:c1]\<close>: the batch and channel axes whole, a slice of the rows
  and a slice of the columns.\<close>

definition window ::
  "'a ndarray \<Rightarrow> int option \<times> int option \<Rightarrow> int option \<times> int option \<Rightarrow> 'a ndarray" where
  "window X rs cs = (case shape X of (N, C, H, W) \<Rightarrow>
     \<lparr>shape = (N, C, slice_len H (fst rs) (snd rs), slice_len W (fst cs) (snd cs)),
      vals = map (map (\<lambda>ch. map (py_slice (fst cs) (snd cs))
                                (py_slice (fst rs) (snd rs) ch))) (vals X)\<rparr>)"

section \<open>Crops\<close>

text \<open>
  \<^verbatim>\<open>random_crops(X, crop_shape)\<close>. The crop sizes are extents of axes, natural
  numbers. The two offsets drawn by \<^verbatim>\<open>np.random.randint(H - HH)\<close> and
  \<^verbatim>\<open>np.random.randint(W - WW)\<close> are the arguments \<open>x\<close> and \<open>y\<close>; numpy draws them
  from \<open>0 \<le> x < H - HH\<close> and \<open>0 \<le> y < W - WW\<close>. The array of zeros that the source
  allocates first is replaced by the slice before it is read (numpy allocates it for
  any sizes that are not negative).
\<close>

definition random_crops ::
  "'a ndarray \<Rightarrow> nat \<times> nat \<Rightarrow> nat \<Rightarrow> nat \<Rightarrow> error + 'a ndarray" where
  "random_crops X crop_shape x y =
     (case shape X of (N, C, H, W) \<Rightarrow>
      case crop_shape of (HH, WW) \<Rightarrow>
        if \<not> (HH < H \<and> WW < W) then Inl AssertionError
        else Inr (window X (Some (int x), Some (int x + int HH))
                           (Some (int y), Some (int y + int WW))))"

text \<open>
  \<^verbatim>\<open>fixed_crops(X, crop_shape, crop_type)\<close>. The four offsets are computed with
  \<^verbatim>\<open>/\<close> before the tag is looked at, and the source does not say which interpreter
  runs it: Python 2 divides two integers by the floor division and gives an integer,
  Python 3 gives a float. Computing the offsets raises nothing under either; a slice
  takes an integer as a bound and raises \<^verbatim>\<open>TypeError\<close> for a float. The interpreter is
  the first argument of the function.
\<close>

datatype interpreter = Python2 | Python3

datatype number = PyInt int | PyFloat rat

text \<open>\<^verbatim>\<open>a / b\<close> for two integers, \<open>b\<close> not zero.\<close>

definition divide_ints :: "interpreter \<Rightarrow> int \<Rightarrow> int \<Rightarrow> number" where
  "divide_ints py a b =
     (case py of Python2 \<Rightarrow> PyInt (a div b) | Python3 \<Rightarrow> PyFloat (of_int a / of_int b))"

text \<open>\<^verbatim>\<open>n + k\<close> for an integer \<open>k\<close>.\<close>

definition plus_int :: "number \<Rightarrow> int \<Rightarrow> number" where
  "plus_int n k = (case n of PyInt i \<Rightarrow> PyInt (i + k) | PyFloat r \<Rightarrow> PyFloat (r + of_int k))"

text \<open>The bounds \<^verbatim>\<open>lo:hi\<close> of a slice, as the indexing takes them.\<close>

definition slice_bounds :: "number \<Rightarrow> number \<Rightarrow> error + int \<times> int" where
  "slice_bounds lo hi =
     (case lo of PyFloat r \<Rightarrow> Inl TypeError
      | PyInt a \<Rightarrow> (case hi of PyFloat r \<Rightarrow> Inl TypeError | PyInt b \<Rightarrow> Inr (a, b)))"

definition fixed_crops ::
  "interpreter \<Rightarrow> 'a ndarray \<Rightarrow> nat \<times> nat \<Rightarrow> string \<Rightarrow> error + 'a ndarray" where
  "fixed_crops py X crop_shape crop_type =
     (case shape X of (N, C, H, W) \<Rightarrow>
      case crop_shape of (HH, WW) \<Rightarrow>
        let x0 = divide_ints py (int W - int WW) 2;
            y0 = divide_ints py (int H - int HH) 2;
            x1 = plus_int x0 (int WW);
            y1 = plus_int y0 (int HH)
        in if crop_type = ''center'' then
             (case slice_bounds y0 y1 of Inl e \<Rightarrow> Inl e
              | Inr (ya, yb) \<Rightarrow>
                  (case slice_bounds x0 x1 of Inl e \<Rightarrow> Inl e
                   | Inr (xa, xb) \<Rightarrow> Inr (window X (Some ya, Some yb) (Some xa, Some xb))))
           else if crop_type = ''ul'' then Inr (window X (None, Some (int HH)) (None, Some (int WW)))
           else if crop_type = ''ur'' then Inr (window X (None, Some (int HH)) (Some (- int WW), None))
           else if crop_type = ''bl'' then Inr (window X (Some (- int HH), None) (None, Some (int WW)))
           else if crop_type = ''br'' then Inr (window X (Some (- int HH), None) (Some (- int WW), None))
           else Inl (ValueError (''Unrecognized crop type '' @ crop_type)))"

section \<open>Flips\<close>

text \<open>
  \<^verbatim>\<open>random_flips(X)\<close>. The draw \<^verbatim>\<open>np.random.randint(2, size=N)\<close> is the argument
  \<open>msk\<close> (the source's \<^verbatim>\<open>mask\<close>): numpy returns \<open>N\<close> integers, each 0 or 1. The
  source fills an array of zeros by two assignments through boolean masks, first the images whose draw is 1, reversed
  along the last axis, then the images whose draw is 0.
\<close>

definition zeros :: "nat \<times> nat \<times> nat \<times> nat \<Rightarrow> 'a::zero ndarray" where
  "zeros sh = (case sh of (N, C, H, W) \<Rightarrow>
     \<lparr>shape = sh, vals = replicate N (replicate C (replicate H (replicate W 0)))\<rparr>)"

definition zeros_like :: "'a::zero ndarray \<Rightarrow> 'a ndarray" where
  "zeros_like X = zeros (shape X)"

text \<open>\<^verbatim>\<open>mask == v\<close>, elementwise.\<close>

definition mask_eq :: "nat list \<Rightarrow> nat \<Rightarrow> bool list" where
  "mask_eq msk v = map (\<lambda>m. m = v) msk"

text \<open>\<^verbatim>\<open>X[b]\<close> for a boolean mask \<open>b\<close> over the first axis: the entries where \<open>b\<close> holds,
  in order.\<close>

fun take_mask :: "bool list \<Rightarrow> 'a list \<Rightarrow> 'a list" where
  "take_mask (b # bs) (x # xs) = (if b then x # take_mask bs xs else take_mask bs xs)"
| "take_mask _ _ = []"

text \<open>\<^verbatim>\<open>out[b] = vs\<close>: the entries of \<open>out\<close> where \<open>b\<close> holds are replaced by the values
  \<open>vs\<close>, in order. (numpy raises when the mask is not as long as the axis or the values
  do not match the selected entries; the source builds both from the same mask of
  length \<open>N\<close>.)\<close>

fun put_mask :: "bool list \<Rightarrow> 'a list \<Rightarrow> 'a list \<Rightarrow> 'a list" where
  "put_mask (b # bs) (x # xs) vs =
     (if b then (case vs of [] \<Rightarrow> x # put_mask bs xs []
                 | v # vs' \<Rightarrow> v # put_mask bs xs vs')
      else x # put_mask bs xs vs)"
| "put_mask _ xs _ = xs"

text \<open>\<^verbatim>\<open>img[:, :, ::-1]\<close>: every row of every channel reversed.\<close>

definition flip_width :: "'a list list list \<Rightarrow> 'a list list list" where
  "flip_width img = map (map rev) img"

definition random_flips :: "'a::zero ndarray \<Rightarrow> nat list \<Rightarrow> 'a ndarray" where
  "random_flips X msk =
     (let out0 = zeros_like X;
          out1 = out0\<lparr>vals := put_mask (mask_eq msk 1) (vals out0)
                            (map flip_width (take_mask (mask_eq msk 1) (vals X)))\<rparr>;
          out2 = out1\<lparr>vals := put_mask (mask_eq msk 0) (vals out1)
                            (take_mask (mask_eq msk 0) (vals X))\<rparr>
      in out2)"

section \<open>Contrast and tint\<close>

text \<open>
  The arithmetic of the samples is numpy's: \<open>*\<close>, \<open>+\<close> and \<open>-\<close> below are the product,
  sum and difference of the array's number type, whatever they round to, and \<open>\<le>\<close> and
  \<open><\<close> its comparisons; nothing is assumed of them.

  \<^verbatim>\<open>random_contrast(X, scale)\<close>. The sample returned by
  \<^verbatim>\<open>np.random.uniform(low, high)\<close> is the argument \<open>scalar\<close>. numpy documents its range:
  the sample is drawn from \<open>low \<le> scalar < high\<close>, the limit \<open>high\<close> may be returned
  because the sample is rounded, and \<open>low\<close> is returned when \<open>high = low\<close>. (For a pair
  whose difference is not finite numpy raises and returns no sample; \<open>scalar\<close> stands
  for a sample that was returned.)
\<close>

definition uniform_ok :: "'a::ord \<Rightarrow> 'a \<Rightarrow> 'a \<Rightarrow> bool" where
  "uniform_ok low high scalar =
     ((low = high \<longrightarrow> scalar = low) \<and> (low < high \<longrightarrow> low \<le> scalar \<and> scalar \<le> high))"

text \<open>\<^verbatim>\<open>X * scalar\<close>.\<close>

definition times_scalar :: "'a::times ndarray \<Rightarrow> 'a \<Rightarrow> 'a ndarray" where
  "times_scalar X scalar = X\<lparr>vals := map (map (map (map (\<lambda>v. v * scalar)))) (vals X)\<rparr>"

definition random_contrast :: "'a::times ndarray \<Rightarrow> 'a \<times> 'a \<Rightarrow> 'a \<Rightarrow> 'a ndarray" where
  "random_contrast X scale scalar =
     (case scale of (low, high) \<Rightarrow> times_scalar X scalar)"

text \<open>\<^verbatim>\<open>X + l[:, :, None, None]\<close>: the entry \<open>l[n, c]\<close> is added to every sample of
  channel \<open>c\<close> of image \<open>n\<close>.\<close>

definition plus_channels :: "'a::plus ndarray \<Rightarrow> 'a list list \<Rightarrow> 'a ndarray" where
  "plus_channels X l =
     X\<lparr>vals := map2 (\<lambda>img ls. map2 (\<lambda>ch t. map (map (\<lambda>v. v + t)) ch) img ls) (vals X) l\<rparr>"

text \<open>\<^verbatim>\<open>random_tint(X, scale)\<close>. The matrix of \<open>N \<times> C\<close> samples returned by
  \<^verbatim>\<open>np.random.random_sample((N, C))\<close> is the argument \<open>us\<close>.\<close>

definition random_tint ::
  "'a::{plus,minus,times} ndarray \<Rightarrow> 'a \<times> 'a \<Rightarrow> 'a list list \<Rightarrow> 'a ndarray" where
  "random_tint X scale us =
     (let l = map (map (\<lambda>u. (snd scale - fst scale) * u + fst scale)) us
      in plus_channels X l)"

text \<open>The contract of \<^verbatim>\<open>randint(2, size=N)\<close>.\<close>

definition mask_ok :: "'a ndarray \<Rightarrow> nat list \<Rightarrow> bool" where
  "mask_ok X msk = (case shape X of (N, C, H, W) \<Rightarrow>
     length msk = N \<and> (\<forall>m \<in> set msk. m < 2))"

section \<open>The functions on a store\<close>

text \<open>
  numpy arrays are objects: a slice of an array is a view that shares its samples, and
  an assignment \<^verbatim>\<open>out[b] = vs\<close> writes into the object \<open>out\<close>. To say what a call does
  to its argument, the functions are given once more on a store of arrays, addressed by
  position; a call receives the address of \<open>X\<close>, reads \<open>X\<close> from the store at every
  statement that mentions it, and returns the store it leaves and a reference to its
  result: a buffer of the store, or a view of a buffer through a window.
\<close>

type_synonym 'a store = "'a ndarray list"

datatype ref =
  Buf nat
  | View nat "int option \<times> int option" "int option \<times> int option"

definition deref :: "'a store \<Rightarrow> ref \<Rightarrow> 'a ndarray" where
  "deref s r = (case r of Buf p \<Rightarrow> s ! p | View p rs cs \<Rightarrow> window (s ! p) rs cs)"

definition alloc :: "'a store \<Rightarrow> 'a ndarray \<Rightarrow> 'a store \<times> nat" where
  "alloc s a = (s @ [a], length s)"

definition random_flips_st :: "'a::zero store \<Rightarrow> nat \<Rightarrow> nat list \<Rightarrow> 'a store \<times> ref" where
  "random_flips_st s p msk =
     (case alloc s (zeros_like (s ! p)) of (s1, out) \<Rightarrow>
        let s2 = s1[out := (s1 ! out)\<lparr>vals := put_mask (mask_eq msk 1) (vals (s1 ! out))
                     (map flip_width (take_mask (mask_eq msk 1) (vals (s1 ! p))))\<rparr>];
            s3 = s2[out := (s2 ! out)\<lparr>vals := put_mask (mask_eq msk 0) (vals (s2 ! out))
                     (take_mask (mask_eq msk 0) (vals (s2 ! p)))\<rparr>]
        in (s3, Buf out))"

definition random_crops_st ::
  "'a::zero store \<Rightarrow> nat \<Rightarrow> nat \<times> nat \<Rightarrow> nat \<Rightarrow> nat \<Rightarrow> error + 'a store \<times> ref" where
  "random_crops_st s p crop_shape x y =
     (case shape (s ! p) of (N, C, H, W) \<Rightarrow>
      case crop_shape of (HH, WW) \<Rightarrow>
        if \<not> (HH < H \<and> WW < W) then Inl AssertionError
        else case alloc s (zeros (N, C, HH, WW)) of (s1, out) \<Rightarrow>
          Inr (s1, View p (Some (int x), Some (int x + int HH))
                          (Some (int y), Some (int y + int WW))))"

definition random_contrast_st ::
  "'a::{zero,times} store \<Rightarrow> nat \<Rightarrow> 'a \<times> 'a \<Rightarrow> 'a \<Rightarrow> 'a store \<times> ref" where
  "random_contrast_st s p scale scalar =
     (case scale of (low, high) \<Rightarrow>
      case alloc s (zeros_like (s ! p)) of (s1, out) \<Rightarrow>
      case alloc s1 (times_scalar (s1 ! p) scalar) of (s2, out') \<Rightarrow> (s2, Buf out'))"

definition random_tint_st ::
  "'a::{zero,plus,minus,times} store \<Rightarrow> nat \<Rightarrow> 'a \<times> 'a \<Rightarrow> 'a list list \<Rightarrow> 'a store \<times> ref" where
  "random_tint_st s p scale us =
     (case alloc s (zeros_like (s ! p)) of (s1, out) \<Rightarrow>
        let l = map (map (\<lambda>u. (snd scale - fst scale) * u + fst scale)) us
        in case alloc s1 (plus_channels (s1 ! p) l) of (s2, out') \<Rightarrow> (s2, Buf out'))"

definition fixed_crops_st ::
  "interpreter \<Rightarrow> 'a store \<Rightarrow> nat \<Rightarrow> nat \<times> nat \<Rightarrow> string \<Rightarrow> error + 'a store \<times> ref" where
  "fixed_crops_st py s p crop_shape crop_type =
     (case shape (s ! p) of (N, C, H, W) \<Rightarrow>
      case crop_shape of (HH, WW) \<Rightarrow>
        let x0 = divide_ints py (int W - int WW) 2;
            y0 = divide_ints py (int H - int HH) 2;
            x1 = plus_int x0 (int WW);
            y1 = plus_int y0 (int HH)
        in if crop_type = ''center'' then
             (case slice_bounds y0 y1 of Inl e \<Rightarrow> Inl e
              | Inr (ya, yb) \<Rightarrow>
                  (case slice_bounds x0 x1 of Inl e \<Rightarrow> Inl e
                   | Inr (xa, xb) \<Rightarrow> Inr (s, View p (Some ya, Some yb) (Some xa, Some xb))))
           else if crop_type = ''ul'' then Inr (s, View p (None, Some (int HH)) (None, Some (int WW)))
           else if crop_type = ''ur'' then Inr (s, View p (None, Some (int HH)) (Some (- int WW), None))
           else if crop_type = ''bl'' then Inr (s, View p (Some (- int HH), None) (None, Some (int WW)))
           else if crop_type = ''br'' then Inr (s, View p (Some (- int HH), None) (Some (- int WW), None))
           else Inl (ValueError (''Unrecognized crop type '' @ crop_type)))"

section \<open>A small batch\<close>

text \<open>Two images of one channel, two rows and three columns, for the concrete
  instances below.\<close>

definition demo :: "rat ndarray" where
  "demo = \<lparr>shape = (2, 1, 2, 3),
            vals = [[[[1, 2, 3], [4, 5, 6]]], [[[7, 8, 9], [10, 11, 12]]]]\<rparr>"

text \<open>One image of one channel, four rows and five columns.\<close>

definition grid :: "rat ndarray" where
  "grid = \<lparr>shape = (1, 1, 4, 5),
            vals = [[[[1, 2, 3, 4, 5], [6, 7, 8, 9, 10], [11, 12, 13, 14, 15],
                      [16, 17, 18, 19, 20]]]]\<rparr>"

text \<open>The small batch with its second image flipped.\<close>

definition demo_flipped :: "rat ndarray" where
  "demo_flipped = \<lparr>shape = (2, 1, 2, 3),
            vals = [[[[1, 2, 3], [4, 5, 6]]], [[[9, 8, 7], [12, 11, 10]]]]\<rparr>"

section \<open>Facts about slices\<close>

lemma slice_bound_le: "slice_bound n i \<le> n"
  by (auto simp: slice_bound_def)

lemma slice_start_le: "slice_start n lo \<le> n"
  by (simp add: slice_start_def slice_bound_le split: option.split)

lemma slice_stop_le: "slice_stop n hi \<le> n"
  by (simp add: slice_stop_def slice_bound_le split: option.split)

lemma length_py_slice: "length (py_slice lo hi xs) = slice_len (length xs) lo hi"
  using slice_stop_le [of "length xs" hi]
  by (simp add: py_slice_def slice_len_def)

lemma nth_py_slice:
  "i < slice_len (length xs) lo hi \<Longrightarrow>
   py_slice lo hi xs ! i = xs ! (slice_start (length xs) lo + i)"
  using slice_stop_le [of "length xs" hi]
  by (simp add: py_slice_def slice_len_def)

lemma set_py_slice: "set (py_slice lo hi xs) \<subseteq> set xs"
  unfolding py_slice_def
  by (meson set_take_subset set_drop_subset subset_trans)

section \<open>Facts about well-shaped arrays and windows\<close>

lemma well_shaped_N: "well_shaped X \<Longrightarrow> shape X = (N, C, H, W) \<Longrightarrow> length (vals X) = N"
  by (simp add: well_shaped_def)

lemma well_shaped_C:
  "well_shaped X \<Longrightarrow> shape X = (N, C, H, W) \<Longrightarrow> n < N \<Longrightarrow> length (vals X ! n) = C"
  by (simp add: well_shaped_def)

lemma well_shaped_H:
  assumes "well_shaped X" and "shape X = (N, C, H, W)" and "n < N" and "c < C"
  shows "length (vals X ! n ! c) = H"
proof -
  have "vals X ! n \<in> set (vals X)"
    using assms by (simp add: well_shaped_def)
  moreover have "vals X ! n ! c \<in> set (vals X ! n)"
    using assms well_shaped_C [of X N C H W n] by simp
  ultimately show ?thesis
    using assms(1,2) by (auto simp: well_shaped_def)
qed

lemma well_shaped_W:
  assumes "well_shaped X" and "shape X = (N, C, H, W)" and "n < N" and "c < C" and "h < H"
  shows "length (vals X ! n ! c ! h) = W"
proof -
  have "vals X ! n \<in> set (vals X)"
    using assms by (simp add: well_shaped_def)
  moreover have "vals X ! n ! c \<in> set (vals X ! n)"
    using assms well_shaped_C [of X N C H W n] by simp
  moreover have "vals X ! n ! c ! h \<in> set (vals X ! n ! c)"
    using assms well_shaped_H [of X N C H W n c] by simp
  ultimately show ?thesis
    using assms(1,2) by (auto simp: well_shaped_def)
qed

lemma shape_window:
  "shape X = (N, C, H, W) \<Longrightarrow>
   shape (window X rs cs) = (N, C, slice_len H (fst rs) (snd rs), slice_len W (fst cs) (snd cs))"
  by (simp add: window_def)

lemma well_shaped_window: "well_shaped X \<Longrightarrow> well_shaped (window X rs cs)"
proof -
  assume ws: "well_shaped X"
  obtain N C H W where sh: "shape X = (N, C, H, W)"
    by (cases "shape X") auto
  have rows: "length row = W" if "img \<in> set (vals X)" "ch \<in> set img" "row \<in> set ch"
    for img ch row
    using ws sh that by (auto simp: well_shaped_def)
  have chans: "length ch = H" if "img \<in> set (vals X)" "ch \<in> set img" for img ch
    using ws sh that by (auto simp: well_shaped_def)
  have imgs: "length img = C" if "img \<in> set (vals X)" for img
    using ws sh that by (auto simp: well_shaped_def)
  have len: "length (vals X) = N"
    using ws sh by (simp add: well_shaped_def)
  have cut: "length row = W"
    if "img \<in> set (vals X)" "ch \<in> set img" "row \<in> set (py_slice (fst rs) (snd rs) ch)"
    for img ch row
    using that rows [of img ch row] set_py_slice [of "fst rs" "snd rs" ch] by blast
  show ?thesis
    using len imgs chans cut
    by (auto simp: well_shaped_def window_def sh length_py_slice)
qed

lemma pixel_window:
  assumes "well_shaped X" and "shape X = (N, C, H, W)"
    and "n < N" and "c < C"
    and "i < slice_len H (fst rs) (snd rs)" and "j < slice_len W (fst cs) (snd cs)"
  shows "pixel (window X rs cs) n c i j =
         pixel X n c (slice_start H (fst rs) + i) (slice_start W (fst cs) + j)"
proof -
  let ?ch = "vals X ! n ! c"
  have lN: "length (vals X) = N" and lC: "length (vals X ! n) = C" and lH: "length ?ch = H"
    using assms by (simp_all add: well_shaped_N well_shaped_C well_shaped_H)
  have hle: "slice_start H (fst rs) + i < H"
    using assms(5) slice_stop_le [of H "snd rs"] by (simp add: slice_len_def)
  then have lW: "length (?ch ! (slice_start H (fst rs) + i)) = W"
    using assms by (simp add: well_shaped_W)
  have "pixel (window X rs cs) n c i j =
        py_slice (fst cs) (snd cs) (py_slice (fst rs) (snd rs) ?ch ! i) ! j"
    using assms lN lC lH
    by (simp add: pixel_def window_def length_py_slice)
  also have "py_slice (fst rs) (snd rs) ?ch ! i = ?ch ! (slice_start H (fst rs) + i)"
    using assms(5) lH by (simp add: nth_py_slice)
  also have "py_slice (fst cs) (snd cs) (?ch ! (slice_start H (fst rs) + i)) ! j =
             ?ch ! (slice_start H (fst rs) + i) ! (slice_start W (fst cs) + j)"
    using assms(6) lW by (simp add: nth_py_slice)
  finally show ?thesis
    by (simp add: pixel_def)
qed

text \<open>The slices the crops take.\<close>

lemma slice_offset:
  "x + k \<le> n \<Longrightarrow>
   slice_start n (Some (int x)) = x \<and> slice_len n (Some (int x)) (Some (int x + int k)) = k"
  by (simp add: slice_start_def slice_stop_def slice_len_def slice_bound_def)

lemma slice_first:
  "slice_start n None = 0 \<and> slice_len n None (Some (int k)) = min n k"
  by (simp add: slice_start_def slice_stop_def slice_len_def slice_bound_def)

lemma slice_last:
  "slice_start n (Some (- int k)) = (if k = 0 then 0 else n - k) \<and>
   slice_len n (Some (- int k)) None = (if k = 0 then n else min n k)"
  by (auto simp: slice_start_def slice_stop_def slice_len_def slice_bound_def)

lemma slice_centre:
  assumes "k \<le> n"
  shows "slice_start n (Some ((int n - int k) div 2)) = (n - k) div 2 \<and>
         slice_len n (Some ((int n - int k) div 2)) (Some ((int n - int k) div 2 + int k)) = k"
proof -
  have d: "(int n - int k) div 2 = int ((n - k) div 2)"
    using assms by (simp add: of_nat_diff zdiv_int)
  have "(n - k) div 2 + k \<le> n"
    using assms by arith
  then show ?thesis
    unfolding d using slice_offset [of "(n - k) div 2" k n] by simp
qed

section \<open>Random crops\<close>

lemma well_shaped_demo: "well_shaped demo"
  by (simp add: well_shaped_def demo_def)

lemma shape_demo: "shape demo = (2, 1, 2, 3)"
  by (simp add: demo_def)

lemma well_shaped_grid: "well_shaped grid"
  by (simp add: well_shaped_def grid_def)

lemma shape_grid: "shape grid = (1, 1, 4, 5)"
  by (simp add: grid_def)

text \<open>
  C2. For a batch \<open>X\<close> of shape \<open>(N, C, H, W)\<close> and a crop shape \<open>(HH, WW)\<close> with
  \<open>HH < H\<close> and \<open>WW < W\<close>, \<^verbatim>\<open>random_crops\<close> returns a batch of shape \<open>(N, C, HH, WW)\<close>
  that is \<open>X\<close> restricted to one window: with the offsets \<open>x < H - HH\<close> and
  \<open>y < W - WW\<close> that were drawn, sample \<open>(i, j)\<close> of channel \<open>c\<close> of image \<open>n\<close> of the
  result is sample \<open>(x + i, y + j)\<close> of the same channel of the same image of \<open>X\<close>; the
  offsets are the same for every image and channel.
\<close>

theorem random_crops_window:
  assumes "well_shaped X" and "shape X = (N, C, H, W)"
    and "HH < H" and "WW < W" and "x < H - HH" and "y < W - WW"
  shows "\<exists>out. random_crops X (HH, WW) x y = Inr out \<and>
           shape out = (N, C, HH, WW) \<and> well_shaped out \<and>
           (\<forall>n<N. \<forall>c<C. \<forall>i<HH. \<forall>j<WW. pixel out n c i j = pixel X n c (x + i) (y + j))"
proof -
  let ?rs = "(Some (int x), Some (int x + int HH))"
  let ?cs = "(Some (int y), Some (int y + int WW))"
  let ?out = "window X ?rs ?cs"
  have r: "slice_start H (fst ?rs) = x" "slice_len H (fst ?rs) (snd ?rs) = HH"
    using assms(3,5) slice_offset [of x HH H] by simp_all
  have c: "slice_start W (fst ?cs) = y" "slice_len W (fst ?cs) (snd ?cs) = WW"
    using assms(4,6) slice_offset [of y WW W] by simp_all
  have "random_crops X (HH, WW) x y = Inr ?out"
    using assms(2,3,4) by (simp add: random_crops_def)
  moreover have "shape ?out = (N, C, HH, WW)"
    using shape_window [OF assms(2), of ?rs ?cs] r c by simp
  moreover have "well_shaped ?out"
    using assms(1) by (rule well_shaped_window)
  moreover have "pixel ?out n c i j = pixel X n c (x + i) (y + j)"
    if "n < N" "c < C" "i < HH" "j < WW" for n c i j
    using pixel_window [OF assms(1,2) that(1,2), of i ?rs j ?cs] that(3,4) r c by simp
  ultimately show ?thesis by blast
qed

theorem random_crops_window_witness:
  "well_shaped demo \<and> shape demo = (2, 1, 2, 3) \<and> (1::nat) < 2 \<and> (2::nat) < 3 \<and>
   (0::nat) < 2 - 1 \<and> (0::nat) < 3 - 2 \<and>
   (\<exists>out. random_crops demo (1, 2) 0 0 = Inr out \<and> shape out = (2, 1, 1, 2) \<and>
      pixel out 1 0 0 1 = pixel demo 1 0 0 1 \<and> pixel out 1 0 0 1 = 8)"
proof -
  have h: "(1::nat) < 2" "(2::nat) < 3" "(0::nat) < 2 - 1" "(0::nat) < 3 - 2"
    by simp_all
  obtain out where o: "random_crops demo (1, 2) 0 0 = Inr out" "shape out = (2, 1, 1, 2)"
    "\<forall>n<2. \<forall>c<1. \<forall>i<1. \<forall>j<2. pixel out n c i j = pixel demo n c (0 + i) (0 + j)"
    using random_crops_window [OF well_shaped_demo shape_demo h] by blast
  have "pixel out 1 0 0 1 = pixel demo 1 0 0 1"
    using o(3) by simp
  moreover have "pixel demo 1 0 0 1 = 8"
    by (simp add: pixel_def demo_def)
  ultimately show ?thesis
    using o(1,2) well_shaped_demo shape_demo by auto
qed

text \<open>
  C8. \<^verbatim>\<open>random_crops\<close> raises the assertion error exactly when \<open>HH \<ge> H\<close> or
  \<open>WW \<ge> W\<close>; the call then has no result at all; and for \<open>HH < H\<close> and \<open>WW < W\<close>
  it returns a result and raises nothing.
\<close>

theorem random_crops_assertion:
  assumes "shape X = (N, C, H, W)"
  shows "(random_crops X (HH, WW) x y = Inl AssertionError) = (H \<le> HH \<or> W \<le> WW) \<and>
         (H \<le> HH \<or> W \<le> WW \<longrightarrow> (\<forall>out. random_crops X (HH, WW) x y \<noteq> Inr out)) \<and>
         (HH < H \<and> WW < W \<longrightarrow> (\<exists>out. random_crops X (HH, WW) x y = Inr out))"
  using assms by (auto simp: random_crops_def)

theorem random_crops_assertion_witness:
  "shape demo = (2, 1, 2, 3) \<and>
   random_crops demo (2, 1) 0 0 = Inl AssertionError \<and>
   random_crops demo (1, 3) 0 0 = Inl AssertionError \<and>
   (\<exists>out. random_crops demo (1, 2) 0 0 = Inr out)"
  using random_crops_assertion [OF shape_demo, of 2 1 0 0]
    random_crops_assertion [OF shape_demo, of 1 3 0 0]
    random_crops_assertion [OF shape_demo, of 1 2 0 0] shape_demo
  by simp

section \<open>Fixed crops\<close>

lemma divide_ints_python2: "divide_ints Python2 a b = PyInt (a div b)"
  by (simp add: divide_ints_def)

lemma divide_ints_python3: "divide_ints Python3 a b = PyFloat (of_int a / of_int b)"
  by (simp add: divide_ints_def)

lemma slice_bounds_int: "slice_bounds (PyInt a) (plus_int (PyInt a) k) = Inr (a, a + k)"
  by (simp add: slice_bounds_def plus_int_def)

lemma slice_bounds_float: "slice_bounds (PyFloat r) hi = Inl TypeError"
  by (simp add: slice_bounds_def)

text \<open>
  Under Python 2 the tag \<^verbatim>\<open>'center'\<close> returns, for \<open>HH \<le> H\<close> and \<open>WW \<le> W\<close>, the window
  of shape \<open>(N, C, HH, WW)\<close> whose first row is \<open>(H - HH) div 2\<close> and whose first column
  is \<open>(W - WW) div 2\<close>.
\<close>

lemma fixed_crops_center_python2:
  assumes "well_shaped X" and "shape X = (N, C, H, W)" and "HH \<le> H" and "WW \<le> W"
  shows "\<exists>out. fixed_crops Python2 X (HH, WW) ''center'' = Inr out \<and>
           shape out = (N, C, HH, WW) \<and>
           (\<forall>n<N. \<forall>c<C. \<forall>i<HH. \<forall>j<WW.
              pixel out n c i j = pixel X n c ((H - HH) div 2 + i) ((W - WW) div 2 + j))"
proof -
  let ?y0 = "(int H - int HH) div 2" and ?x0 = "(int W - int WW) div 2"
  let ?rs = "(Some ?y0, Some (?y0 + int HH))" and ?cs = "(Some ?x0, Some (?x0 + int WW))"
  let ?out = "window X ?rs ?cs"
  have r: "slice_start H (fst ?rs) = (H - HH) div 2" "slice_len H (fst ?rs) (snd ?rs) = HH"
    using slice_centre [OF assms(3)] by simp_all
  have c: "slice_start W (fst ?cs) = (W - WW) div 2" "slice_len W (fst ?cs) (snd ?cs) = WW"
    using slice_centre [OF assms(4)] by simp_all
  have "fixed_crops Python2 X (HH, WW) ''center'' = Inr ?out"
    using assms(2)
    by (simp add: fixed_crops_def Let_def divide_ints_python2 slice_bounds_int)
  moreover have "shape ?out = (N, C, HH, WW)"
    using shape_window [OF assms(2), of ?rs ?cs] r c by simp
  moreover have "pixel ?out n c i j = pixel X n c ((H - HH) div 2 + i) ((W - WW) div 2 + j)"
    if "n < N" "c < C" "i < HH" "j < WW" for n c i j
    using pixel_window [OF assms(1,2) that(1,2), of i ?rs j ?cs] that(3,4) r c by simp
  ultimately show ?thesis by blast
qed

text \<open>
  C5. The tag \<^verbatim>\<open>'center'\<close> is to return the window of \<open>X\<close> at the offsets
  \<open>y0 = (H - HH) / 2\<close> and \<open>x0 = (W - WW) / 2\<close>, taken as integers. Under Python 3 the
  two quotients are floats, the slice \<^verbatim>\<open>X[:, :, y0:y1, x0:x1]\<close> refuses them, and every
  call with the tag \<^verbatim>\<open>'center'\<close> ends in a \<^verbatim>\<open>TypeError\<close>, whatever the batch and the
  crop shape; for the batch of four rows and five columns and the crop shape \<open>(1, 2)\<close>,
  Python 2 returns the window at row 1 and column 1 and Python 3 raises.
\<close>

theorem fixed_crops_center_python3:
  "fixed_crops Python3 X crop_shape ''center'' = Inl TypeError \<and>
   fixed_crops Python3 grid (1, 2) ''center'' = Inl TypeError \<and>
   fixed_crops Python2 grid (1, 2) ''center'' =
     Inr \<lparr>shape = (1, 1, 1, 2), vals = [[[[7, 8]]]]\<rparr>"
proof -
  have 3: "fixed_crops Python3 Y cs ''center'' = Inl TypeError" for Y :: "'b ndarray" and cs
    by (cases "shape Y"; cases cs)
       (simp add: fixed_crops_def Let_def divide_ints_python3 slice_bounds_float)
  have 2: "fixed_crops Python2 grid (1, 2) ''center'' =
     Inr \<lparr>shape = (1, 1, 1, 2), vals = [[[[7, 8]]]]\<rparr>"
    by code_simp
  from 3 [of X crop_shape] 3 [of grid "(1, 2)"] 2 show ?thesis
    by (intro conjI)
qed

text \<open>
  C6. For \<open>HH \<le> H\<close> and \<open>WW \<le> W\<close>, the tag \<^verbatim>\<open>'ul'\<close> returns the slice
  \<^verbatim>\<open>X[:, :, :HH, :WW]\<close>, the first \<open>HH\<close> rows and first \<open>WW\<close> columns of every channel,
  and the tag \<^verbatim>\<open>'br'\<close> returns the slice \<^verbatim>\<open>X[:, :, -HH:, -WW:]\<close>, the last \<open>HH\<close> rows
  and last \<open>WW\<close> columns (a slice from \<open>-0\<close> is the whole axis). Both hold the samples
  of \<open>X\<close> themselves and depend on nothing but \<open>X\<close> and the crop shape, under either
  interpreter.
\<close>

theorem fixed_crops_ul_br:
  assumes "well_shaped X" and "shape X = (N, C, H, W)" and "HH \<le> H" and "WW \<le> W"
  shows "(\<exists>out. fixed_crops py X (HH, WW) ''ul'' = Inr out \<and>
            shape out = (N, C, HH, WW) \<and>
            (\<forall>n<N. \<forall>c<C. \<forall>i<HH. \<forall>j<WW. pixel out n c i j = pixel X n c i j)) \<and>
         (\<exists>out hh ww. fixed_crops py X (HH, WW) ''br'' = Inr out \<and>
            hh = (if HH = 0 then H else HH) \<and> ww = (if WW = 0 then W else WW) \<and>
            shape out = (N, C, hh, ww) \<and>
            (\<forall>n<N. \<forall>c<C. \<forall>i<hh. \<forall>j<ww.
               pixel out n c i j = pixel X n c (H - hh + i) (W - ww + j)))"
proof
  let ?fr = "(None, Some (int HH))" and ?fc = "(None, Some (int WW))"
  let ?ul = "window X ?fr ?fc"
  have fr: "slice_start H (fst ?fr) = 0" "slice_len H (fst ?fr) (snd ?fr) = HH"
    using assms(3) slice_first [of H HH] by simp_all
  have fc: "slice_start W (fst ?fc) = 0" "slice_len W (fst ?fc) (snd ?fc) = WW"
    using assms(4) slice_first [of W WW] by simp_all
  have "fixed_crops py X (HH, WW) ''ul'' = Inr ?ul"
    using assms(2) by (simp add: fixed_crops_def Let_def)
  moreover have "shape ?ul = (N, C, HH, WW)"
    using shape_window [OF assms(2), of ?fr ?fc] fr fc by simp
  moreover have "pixel ?ul n c i j = pixel X n c i j"
    if "n < N" "c < C" "i < HH" "j < WW" for n c i j
    using pixel_window [OF assms(1,2) that(1,2), of i ?fr j ?fc] that(3,4) fr fc by simp
  ultimately show "\<exists>out. fixed_crops py X (HH, WW) ''ul'' = Inr out \<and>
            shape out = (N, C, HH, WW) \<and>
            (\<forall>n<N. \<forall>c<C. \<forall>i<HH. \<forall>j<WW. pixel out n c i j = pixel X n c i j)"
    by blast
next
  let ?lr = "(Some (- int HH), None)" and ?lc = "(Some (- int WW), None)"
  let ?br = "window X ?lr ?lc"
  define hh where "hh = (if HH = 0 then H else HH)"
  define ww where "ww = (if WW = 0 then W else WW)"
  have lr: "slice_start H (fst ?lr) = H - hh" "slice_len H (fst ?lr) (snd ?lr) = hh"
    using assms(3) slice_last [of H HH] by (simp_all add: hh_def)
  have lc: "slice_start W (fst ?lc) = W - ww" "slice_len W (fst ?lc) (snd ?lc) = ww"
    using assms(4) slice_last [of W WW] by (simp_all add: ww_def)
  have 1: "fixed_crops py X (HH, WW) ''br'' = Inr ?br"
    using assms(2) by (simp add: fixed_crops_def Let_def)
  have 2: "shape ?br = (N, C, hh, ww)"
    using shape_window [OF assms(2), of ?lr ?lc] lr lc by simp
  have 3: "pixel ?br n c i j = pixel X n c (H - hh + i) (W - ww + j)"
    if "n < N" "c < C" "i < hh" "j < ww" for n c i j
    using pixel_window [OF assms(1,2) that(1,2), of i ?lr j ?lc] that(3,4) lr lc by simp
  show "\<exists>out hh ww. fixed_crops py X (HH, WW) ''br'' = Inr out \<and>
            hh = (if HH = 0 then H else HH) \<and> ww = (if WW = 0 then W else WW) \<and>
            shape out = (N, C, hh, ww) \<and>
            (\<forall>n<N. \<forall>c<C. \<forall>i<hh. \<forall>j<ww.
               pixel out n c i j = pixel X n c (H - hh + i) (W - ww + j))"
    using 1 2 3 hh_def ww_def by blast
qed

theorem fixed_crops_ul_br_witness:
  "well_shaped grid \<and> shape grid = (1, 1, 4, 5) \<and> (2::nat) \<le> 4 \<and> (2::nat) \<le> 5 \<and>
   fixed_crops Python3 grid (2, 2) ''ul'' =
     Inr \<lparr>shape = (1, 1, 2, 2), vals = [[[[1, 2], [6, 7]]]]\<rparr> \<and>
   fixed_crops Python3 grid (2, 2) ''br'' =
     Inr \<lparr>shape = (1, 1, 2, 2), vals = [[[[14, 15], [19, 20]]]]\<rparr> \<and>
   ((\<exists>out. fixed_crops Python3 grid (2, 2) ''ul'' = Inr out \<and>
       shape out = (1, 1, 2, 2) \<and>
       (\<forall>n<1. \<forall>c<1. \<forall>i<2. \<forall>j<2. pixel out n c i j = pixel grid n c i j)) \<and>
    (\<exists>out hh ww. fixed_crops Python3 grid (2, 2) ''br'' = Inr out \<and>
       hh = (if (2::nat) = 0 then 4 else 2) \<and> ww = (if (2::nat) = 0 then 5 else 2) \<and>
       shape out = (1, 1, hh, ww) \<and>
       (\<forall>n<1. \<forall>c<1. \<forall>i<hh. \<forall>j<ww.
          pixel out n c i j = pixel grid n c (4 - hh + i) (5 - ww + j))))"
proof -
  have h: "(2::nat) \<le> 4" "(2::nat) \<le> 5"
    by simp_all
  have v: "fixed_crops Python3 grid (2, 2) ''ul'' =
      Inr \<lparr>shape = (1, 1, 2, 2), vals = [[[[1, 2], [6, 7]]]]\<rparr>"
    "fixed_crops Python3 grid (2, 2) ''br'' =
      Inr \<lparr>shape = (1, 1, 2, 2), vals = [[[[14, 15], [19, 20]]]]\<rparr>"
    by code_simp+
  note t = fixed_crops_ul_br [OF well_shaped_grid shape_grid h, of Python3]
  from well_shaped_grid shape_grid h v t [THEN conjunct1] t [THEN conjunct2]
  show ?thesis
    by (intro conjI)
qed

text \<open>
  C7. For every batch and every crop shape, a tag that is none of \<^verbatim>\<open>center\<close>,
  \<^verbatim>\<open>ul\<close>, \<^verbatim>\<open>ur\<close>, \<^verbatim>\<open>bl\<close>, \<^verbatim>\<open>br\<close> makes \<^verbatim>\<open>fixed_crops\<close> raise a
  \<^verbatim>\<open>ValueError\<close> whose message is \<^verbatim>\<open>Unrecognized crop type\<close> followed by the tag;
  the error is the whole outcome of the call, under either interpreter.
\<close>

theorem fixed_crops_unrecognized:
  assumes "crop_type \<notin> {''center'', ''ul'', ''ur'', ''bl'', ''br''}"
  shows "fixed_crops py X crop_shape crop_type =
         Inl (ValueError (''Unrecognized crop type '' @ crop_type))"
  using assms
  by (cases "shape X"; cases crop_shape) (simp add: fixed_crops_def Let_def)

theorem fixed_crops_unrecognized_witness:
  "''bogus'' \<notin> {''center'', ''ul'', ''ur'', ''bl'', ''br''} \<and>
   fixed_crops Python2 grid (2, 2) ''bogus'' = Inl (ValueError ''Unrecognized crop type bogus'') \<and>
   fixed_crops Python3 grid (2, 2) ''bogus'' = Inl (ValueError ''Unrecognized crop type bogus'')"
proof -
  have h: "''bogus'' \<notin> {''center'', ''ul'', ''ur'', ''bl'', ''br''}"
    by simp
  show ?thesis
    using h fixed_crops_unrecognized [OF h, of Python2 grid "(2, 2)"]
      fixed_crops_unrecognized [OF h, of Python3 grid "(2, 2)"] by simp
qed




section \<open>Random flips\<close>

lemma length_put_mask: "length (put_mask bs xs vs) = length xs"
  by (induction bs xs vs rule: put_mask.induct) (auto split: list.splits)

lemma nth_put_take_mask:
  "length bs = length xs \<Longrightarrow> length ys = length xs \<Longrightarrow> i < length xs \<Longrightarrow>
   put_mask bs xs (map f (take_mask bs ys)) ! i = (if bs ! i then f (ys ! i) else xs ! i)"
proof (induction bs arbitrary: xs ys i)
  case Nil
  then show ?case by simp
next
  case (Cons b bs)
  then obtain x xs' y ys' where xs: "xs = x # xs'" and ys: "ys = y # ys'"
    by (cases xs; cases ys) auto
  show ?case
  proof (cases i)
    case 0
    then show ?thesis by (simp add: xs ys)
  next
    case (Suc k)
    then show ?thesis
      using Cons.prems Cons.IH [of xs' ys' k] by (simp add: xs ys)
  qed
qed

lemma shape_random_flips: "shape (random_flips X msk) = shape X"
  by (simp add: random_flips_def Let_def zeros_like_def zeros_def split: prod.split)

lemma vals_random_flips:
  assumes "well_shaped X" and "shape X = (N, C, H, W)" and "mask_ok X msk" and "n < N"
  shows "vals (random_flips X msk) ! n =
         (if msk ! n = 1 then flip_width (vals X ! n) else vals X ! n)"
proof -
  let ?z = "vals (zeros_like X :: 'a ndarray)"
  let ?o1 = "put_mask (mask_eq msk 1) ?z (map flip_width (take_mask (mask_eq msk 1) (vals X)))"
  have lX: "length (vals X) = N"
    using assms(1,2) by (rule well_shaped_N)
  have lz: "length ?z = N"
    using assms(2) by (simp add: zeros_like_def zeros_def)
  have lm: "length msk = N" and m2: "msk ! n < 2"
    using assms(2,3,4) by (simp_all add: mask_ok_def)
  have l1: "length ?o1 = N"
    using lz by (simp add: length_put_mask)
  have 1: "?o1 ! n = (if msk ! n = 1 then flip_width (vals X ! n) else ?z ! n)"
    using nth_put_take_mask [of "mask_eq msk 1" ?z "vals X" n flip_width] lX lz lm assms(4)
    by (simp add: mask_eq_def)
  have "vals (random_flips X msk) ! n =
        put_mask (mask_eq msk 0) ?o1 (map (\<lambda>v. v) (take_mask (mask_eq msk 0) (vals X))) ! n"
    by (simp add: random_flips_def Let_def)
  also have "\<dots> = (if msk ! n = 0 then vals X ! n else ?o1 ! n)"
    using nth_put_take_mask [of "mask_eq msk 0" ?o1 "vals X" n "\<lambda>v. v"] lX l1 lm assms(4)
    by (simp add: mask_eq_def)
  finally show ?thesis
    using 1 m2 by (auto simp: less_2_cases_iff)
qed

lemma length_random_flips: "length (vals (random_flips X msk)) = length (vals (zeros_like X :: 'a::zero ndarray))"
  by (simp add: random_flips_def Let_def length_put_mask)


lemma well_shaped_iff:
  "shape X = (N, C, H, W) \<Longrightarrow>
   well_shaped X =
     (length (vals X) = N \<and>
      (\<forall>n<N. length (vals X ! n) = C \<and>
         (\<forall>ch \<in> set (vals X ! n). length ch = H \<and> (\<forall>row \<in> set ch. length row = W))))"
  by (auto simp: well_shaped_def all_set_conv_all_nth [of "vals X"])

lemma pixel_flip_width:
  assumes "well_shaped X" and "shape X = (N, C, H, W)"
    and "n < N" and "c < C" and "h < H" and "w < W"
  shows "flip_width (vals X ! n) ! c ! h ! w = pixel X n c h (W - 1 - w)"
proof -
  have lC: "length (vals X ! n) = C" and lH: "length (vals X ! n ! c) = H"
    and lW: "length (vals X ! n ! c ! h) = W"
    using assms by (simp_all add: well_shaped_C well_shaped_H well_shaped_W)
  show ?thesis
    using assms(4,5,6) lC lH lW by (simp add: flip_width_def pixel_def rev_nth)
qed

text \<open>
  C1. For a batch \<open>X\<close> of shape \<open>(N, C, H, W)\<close>, \<^verbatim>\<open>random_flips(X)\<close> returns a batch of
  the same shape in which every image is either the image of \<open>X\<close> at the same index,
  unchanged, or that image with every row of every channel reversed (sample \<open>w\<close> of a row
  is sample \<open>W - 1 - w\<close> of the row of \<open>X\<close>); the choice is the one draw of that image,
  the same for all its channels and rows. For \<open>N = 0\<close> the result has no image.
\<close>

theorem random_flips_per_image:
  assumes "well_shaped X" and "shape X = (N, C, H, W)" and "mask_ok X msk"
  shows "shape (random_flips X msk) = (N, C, H, W) \<and>
         well_shaped (random_flips X msk) \<and>
         (\<forall>n<N. vals (random_flips X msk) ! n = vals X ! n \<or>
                 vals (random_flips X msk) ! n = flip_width (vals X ! n) \<and>
                 (\<forall>c<C. \<forall>h<H. \<forall>w<W.
                    pixel (random_flips X msk) n c h w = pixel X n c h (W - 1 - w))) \<and>
         (N = 0 \<longrightarrow> vals (random_flips X msk) = [])"
proof -
  let ?out = "random_flips X msk"
  have sh: "shape ?out = (N, C, H, W)"
    using assms(2) by (simp add: shape_random_flips)
  have len: "length (vals ?out) = N"
    using assms(2) by (simp add: length_random_flips zeros_like_def zeros_def)
  have img: "vals ?out ! n = (if msk ! n = 1 then flip_width (vals X ! n) else vals X ! n)"
    if "n < N" for n
    using vals_random_flips [OF assms that] .
  have X: "length (vals X ! n) = C \<and>
       (\<forall>ch \<in> set (vals X ! n). length ch = H \<and> (\<forall>row \<in> set ch. length row = W))"
    if "n < N" for n
    using assms(1) that well_shaped_iff [OF assms(2)] by blast
  have ok: "length (vals ?out ! n) = C \<and>
       (\<forall>ch \<in> set (vals ?out ! n). length ch = H \<and> (\<forall>row \<in> set ch. length row = W))"
    if "n < N" for n
    using X [OF that] img [OF that] by (auto simp: flip_width_def)
  have ws: "well_shaped ?out"
    using well_shaped_iff [OF sh] len ok by blast
  have flipped: "pixel ?out n c h w = pixel X n c h (W - 1 - w)"
    if "n < N" "vals ?out ! n = flip_width (vals X ! n)" "c < C" "h < H" "w < W" for n c h w
    using pixel_flip_width [OF assms(1,2) that(1,3,4,5)] that(2) by (simp add: pixel_def)
  have each: "vals ?out ! n = vals X ! n \<or>
      vals ?out ! n = flip_width (vals X ! n) \<and>
      (\<forall>c<C. \<forall>h<H. \<forall>w<W. pixel ?out n c h w = pixel X n c h (W - 1 - w))"
    if "n < N" for n
  proof (cases "msk ! n = 1")
    case True
    then have "vals ?out ! n = flip_width (vals X ! n)"
      using img [OF that] by simp
    then show ?thesis
      using flipped [OF that] by blast
  next
    case False
    then show ?thesis
      using img [OF that] by simp
  qed
  have "N = 0 \<longrightarrow> vals ?out = []"
    using len by (cases "vals ?out") auto
  with sh ws each show ?thesis
    by blast
qed

theorem random_flips_per_image_witness:
  "well_shaped demo \<and> shape demo = (2, 1, 2, 3) \<and> mask_ok demo [0, 1] \<and>
   random_flips demo [0, 1] = demo_flipped \<and>
   shape (random_flips demo [0, 1]) = (2, 1, 2, 3) \<and>
   well_shaped (random_flips demo [0, 1])"
proof -
  have m: "mask_ok demo [0, 1]"
    by (simp add: mask_ok_def demo_def)
  have v: "random_flips demo [0, 1] = demo_flipped"
    by code_simp
  note t = random_flips_per_image [OF well_shaped_demo shape_demo m]
  from well_shaped_demo shape_demo m v t [THEN conjunct1] t [THEN conjunct2, THEN conjunct1]
  show ?thesis
    by (intro conjI)
qed

section \<open>Random contrast\<close>

lemma shape_times_scalar: "shape (times_scalar X f) = shape X"
  by (simp add: times_scalar_def)

lemma well_shaped_times_scalar: "well_shaped X \<Longrightarrow> well_shaped (times_scalar X f)"
  by (auto simp: well_shaped_def times_scalar_def)

lemma pixel_times_scalar:
  assumes "well_shaped X" and "shape X = (N, C, H, W)"
    and "n < N" and "c < C" and "h < H" and "w < W"
  shows "pixel (times_scalar X f) n c h w = pixel X n c h w * f"
proof -
  have "length (vals X) = N" "length (vals X ! n) = C" "length (vals X ! n ! c) = H"
    "length (vals X ! n ! c ! h) = W"
    using assms by (simp_all add: well_shaped_N well_shaped_C well_shaped_H well_shaped_W)
  then show ?thesis
    using assms(3-6) by (simp add: pixel_def times_scalar_def)
qed

text \<open>
  C3 asks for a factor \<open>f\<close> with \<open>low \<le> f < high\<close>. The factor is the sample of
  \<^verbatim>\<open>np.random.uniform(low, high)\<close>, which can be \<open>high\<close> itself: for the scale \<open>(1, 3)\<close>
  the sample is computed as \<open>1 + (3 - 1) * u\<close>, which for the largest \<open>u\<close> below 1,
  \<open>1 - 1 / 2 ^ 53\<close>, is \<open>3 - 1 / 2 ^ 52\<close>, halfway between two neighbouring doubles
  and rounded to 3. With that sample every value of the batch is tripled (the products
  1 * 3, ..., 12 * 3 are exact), and no factor below 3 triples the value 1.
\<close>

theorem random_contrast_upper_limit:
  "uniform_ok (1::rat) 3 3 \<and>
   random_contrast demo (1, 3) 3 =
     \<lparr>shape = (2, 1, 2, 3),
      vals = [[[[3, 6, 9], [12, 15, 18]]], [[[21, 24, 27], [30, 33, 36]]]]\<rparr> \<and>
   \<not> (\<exists>f. 1 \<le> f \<and> f < 3 \<and>
          (\<forall>n<2. \<forall>c<1. \<forall>h<2. \<forall>w<3.
             pixel (random_contrast demo (1, 3) 3) n c h w = pixel demo n c h w * f))"
proof (intro conjI)
  show "uniform_ok (1::rat) 3 3"
    by (simp add: uniform_ok_def)
  show "random_contrast demo (1, 3) 3 =
     \<lparr>shape = (2, 1, 2, 3),
      vals = [[[[3, 6, 9], [12, 15, 18]]], [[[21, 24, 27], [30, 33, 36]]]]\<rparr>"
    by code_simp
  show "\<not> (\<exists>f. 1 \<le> f \<and> f < 3 \<and>
          (\<forall>n<2. \<forall>c<1. \<forall>h<2. \<forall>w<3.
             pixel (random_contrast demo (1, 3) 3) n c h w = pixel demo n c h w * f))"
  proof
    assume "\<exists>f. 1 \<le> f \<and> f < 3 \<and>
          (\<forall>n<2. \<forall>c<1. \<forall>h<2. \<forall>w<3.
             pixel (random_contrast demo (1, 3) 3) n c h w = pixel demo n c h w * f)"
    then obtain f :: rat where f: "f < 3"
      and px: "\<forall>n<2. \<forall>c<1. \<forall>h<2. \<forall>w<3.
             pixel (random_contrast demo (1, 3) 3) n c h w = pixel demo n c h w * f"
      by (elim exE conjE)
    have a: "pixel (random_contrast demo (1, 3) 3) 0 0 0 0 = 3"
      by code_simp
    have b: "pixel demo 0 0 0 0 = 1"
      by code_simp
    have "pixel (random_contrast demo (1, 3) 3) 0 0 0 0 = pixel demo 0 0 0 0 * f"
      using px [rule_format, of 0 0 0 0] by simp
    then have "f = 3"
      unfolding a b by simp
    then show False
      using f by simp
  qed
qed

text \<open>
  C3, amended. For every batch \<open>X\<close> and every scale pair \<open>(low, high)\<close>,
  \<^verbatim>\<open>random_contrast(X, (low, high))\<close> has the shape of \<open>X\<close> and is \<open>X\<close> with every sample
  multiplied by one factor \<open>f\<close>, the same for all images, channels and positions, the
  sample of \<^verbatim>\<open>np.random.uniform(low, high)\<close>; for \<open>low < high\<close> it lies in
  \<open>low \<le> f \<le> high\<close>, the upper limit included; in the degenerate case
  \<open>low = high = s\<close> the factor is \<open>s\<close> and the result is exactly \<open>X * s\<close>.
\<close>

theorem random_contrast_factor:
  fixes X :: "'a::{times,ord} ndarray"
  assumes "well_shaped X" and "shape X = (N, C, H, W)" and "uniform_ok low high scalar"
  shows "shape (random_contrast X (low, high) scalar) = (N, C, H, W) \<and>
         well_shaped (random_contrast X (low, high) scalar) \<and>
         (\<exists>f. (\<forall>n<N. \<forall>c<C. \<forall>h<H. \<forall>w<W.
                  pixel (random_contrast X (low, high) scalar) n c h w = pixel X n c h w * f) \<and>
               (low < high \<longrightarrow> low \<le> f \<and> f \<le> high) \<and>
               (low = high \<longrightarrow> f = low)) \<and>
         (low = high \<longrightarrow>
            (\<forall>n<N. \<forall>c<C. \<forall>h<H. \<forall>w<W.
               pixel (random_contrast X (low, high) scalar) n c h w = pixel X n c h w * low))"
proof -
  have eq: "random_contrast X (low, high) scalar = times_scalar X scalar"
    by (simp add: random_contrast_def)
  have sh: "shape (random_contrast X (low, high) scalar) = (N, C, H, W)"
    using assms(2) by (simp add: eq shape_times_scalar)
  have ws: "well_shaped (random_contrast X (low, high) scalar)"
    using assms(1) by (simp add: eq well_shaped_times_scalar)
  have px: "\<forall>n<N. \<forall>c<C. \<forall>h<H. \<forall>w<W.
      pixel (random_contrast X (low, high) scalar) n c h w = pixel X n c h w * scalar"
    using pixel_times_scalar [OF assms(1,2)] by (simp add: eq)
  have rng: "low < high \<longrightarrow> low \<le> scalar \<and> scalar \<le> high"
    using assms(3) by (simp add: uniform_ok_def)
  have deg: "low = high \<longrightarrow> scalar = low"
    using assms(3) by (simp add: uniform_ok_def)
  have ex: "\<exists>f. (\<forall>n<N. \<forall>c<C. \<forall>h<H. \<forall>w<W.
                  pixel (random_contrast X (low, high) scalar) n c h w = pixel X n c h w * f) \<and>
               (low < high \<longrightarrow> low \<le> f \<and> f \<le> high) \<and>
               (low = high \<longrightarrow> f = low)"
    using px rng deg by (intro exI [of _ scalar] conjI)
  have px': "low = high \<longrightarrow>
            (\<forall>n<N. \<forall>c<C. \<forall>h<H. \<forall>w<W.
               pixel (random_contrast X (low, high) scalar) n c h w = pixel X n c h w * low)"
    using px deg by metis
  from sh ws ex px' show ?thesis
    by (intro conjI)
qed

theorem random_contrast_factor_witness:
  "well_shaped demo \<and> shape demo = (2, 1, 2, 3) \<and> uniform_ok (1::rat) 3 2 \<and>
   uniform_ok (5::rat) 5 5 \<and>
   random_contrast demo (1, 3) 2 =
     \<lparr>shape = (2, 1, 2, 3),
      vals = [[[[2, 4, 6], [8, 10, 12]]], [[[14, 16, 18], [20, 22, 24]]]]\<rparr> \<and>
   shape (random_contrast demo (1, 3) 2) = (2, 1, 2, 3) \<and>
   well_shaped (random_contrast demo (1, 3) 2) \<and>
   (\<exists>f. (\<forall>n<2. \<forall>c<1. \<forall>h<2. \<forall>w<3.
            pixel (random_contrast demo (1, 3) 2) n c h w = pixel demo n c h w * f) \<and>
         ((1::rat) < 3 \<longrightarrow> 1 \<le> f \<and> f \<le> 3) \<and>
         ((1::rat) = 3 \<longrightarrow> f = 1)) \<and>
   shape (random_contrast demo (5, 5) 5) = (2, 1, 2, 3)"
proof -
  have h: "uniform_ok (1::rat) 3 2" "uniform_ok (5::rat) 5 5"
    by (simp_all add: uniform_ok_def)
  have v: "random_contrast demo (1, 3) 2 =
     \<lparr>shape = (2, 1, 2, 3),
      vals = [[[[2, 4, 6], [8, 10, 12]]], [[[14, 16, 18], [20, 22, 24]]]]\<rparr>"
    by code_simp
  note t = random_contrast_factor [OF well_shaped_demo shape_demo h(1)]
  note d = random_contrast_factor [OF well_shaped_demo shape_demo h(2)]
  from well_shaped_demo shape_demo h v t [THEN conjunct1] t [THEN conjunct2, THEN conjunct1]
    t [THEN conjunct2, THEN conjunct2, THEN conjunct1] d [THEN conjunct1]
  show ?thesis
    by (intro conjI)
qed

section \<open>The input is not written\<close>

lemma random_flips_st_eq:
  assumes "p < length s"
  shows "random_flips_st s p msk = (s @ [random_flips (s ! p) msk], Buf (length s))"
  using assms
  by (simp add: random_flips_st_def alloc_def random_flips_def Let_def nth_append)

lemma random_contrast_st_eq:
  assumes "p < length s"
  shows "random_contrast_st s p scale scalar =
     (s @ [zeros_like (s ! p), random_contrast (s ! p) scale scalar], Buf (Suc (length s)))"
  using assms
  by (cases scale)
     (simp add: random_contrast_st_def random_contrast_def alloc_def nth_append)

lemma random_tint_st_eq:
  assumes "p < length s"
  shows "random_tint_st s p scale us =
     (s @ [zeros_like (s ! p), random_tint (s ! p) scale us], Buf (Suc (length s)))"
  using assms
  by (simp add: random_tint_st_def random_tint_def alloc_def Let_def nth_append)

lemma fixed_crops_st_cases:
  "(\<exists>e. fixed_crops_st py s p crop_shape crop_type = Inl e \<and>
        fixed_crops py (s ! p) crop_shape crop_type = Inl e) \<or>
   (\<exists>rs cs. fixed_crops_st py s p crop_shape crop_type = Inr (s, View p rs cs) \<and>
        fixed_crops py (s ! p) crop_shape crop_type = Inr (window (s ! p) rs cs))"
  by (cases "shape (s ! p)"; cases crop_shape)
     (auto simp: fixed_crops_st_def fixed_crops_def Let_def split: sum.splits)

text \<open>
  C9. No function of the module changes its input. Run on a store that holds \<open>X\<close> at
  address \<open>p\<close>, each of \<^verbatim>\<open>random_flips\<close>, \<^verbatim>\<open>random_crops\<close>, \<^verbatim>\<open>random_contrast\<close>,
  \<^verbatim>\<open>random_tint\<close> and \<^verbatim>\<open>fixed_crops\<close> leaves a store in which the array at \<open>p\<close>, and
  every other array that was there before the call, is as it was: the functions write
  only into arrays they allocate themselves (the crops write nothing and return a view
  of \<open>X\<close>). The reference returned stands for the value that the function computes
  from \<open>X\<close>; a call that raises leaves no store but the one it was given.
\<close>

theorem input_unchanged:
  fixes s :: "'a::{zero,plus,minus,times} store"
  assumes "p < length s"
  shows "(case random_flips_st s p msk of (s', r) \<Rightarrow>
            s' ! p = s ! p \<and> take (length s) s' = s \<and>
            deref s' r = random_flips (s ! p) msk) \<and>
         (case random_crops_st s p crop_shape x y of
            Inl e \<Rightarrow> random_crops (s ! p) crop_shape x y = Inl e
          | Inr (s', r) \<Rightarrow>
              s' ! p = s ! p \<and> take (length s) s' = s \<and>
              random_crops (s ! p) crop_shape x y = Inr (deref s' r)) \<and>
         (case random_contrast_st s p scale scalar of (s', r) \<Rightarrow>
            s' ! p = s ! p \<and> take (length s) s' = s \<and>
            deref s' r = random_contrast (s ! p) scale scalar) \<and>
         (case random_tint_st s p scale us of (s', r) \<Rightarrow>
            s' ! p = s ! p \<and> take (length s) s' = s \<and>
            deref s' r = random_tint (s ! p) scale us) \<and>
         (case fixed_crops_st py s p crop_shape crop_type of
            Inl e \<Rightarrow> fixed_crops py (s ! p) crop_shape crop_type = Inl e
          | Inr (s', r) \<Rightarrow>
              s' = s \<and> fixed_crops py (s ! p) crop_shape crop_type = Inr (deref s' r))"
proof (intro conjI)
  show "case random_flips_st s p msk of (s', r) \<Rightarrow>
            s' ! p = s ! p \<and> take (length s) s' = s \<and>
            deref s' r = random_flips (s ! p) msk"
    using assms by (simp add: random_flips_st_eq deref_def nth_append)
  show "case random_crops_st s p crop_shape x y of
            Inl e \<Rightarrow> random_crops (s ! p) crop_shape x y = Inl e
          | Inr (s', r) \<Rightarrow>
              s' ! p = s ! p \<and> take (length s) s' = s \<and>
              random_crops (s ! p) crop_shape x y = Inr (deref s' r)"
    using assms
    by (cases "shape (s ! p)"; cases crop_shape)
       (simp add: random_crops_st_def random_crops_def alloc_def deref_def nth_append)
  show "case random_contrast_st s p scale scalar of (s', r) \<Rightarrow>
            s' ! p = s ! p \<and> take (length s) s' = s \<and>
            deref s' r = random_contrast (s ! p) scale scalar"
    using assms by (simp add: random_contrast_st_eq deref_def nth_append)
  show "case random_tint_st s p scale us of (s', r) \<Rightarrow>
            s' ! p = s ! p \<and> take (length s) s' = s \<and>
            deref s' r = random_tint (s ! p) scale us"
    using assms by (simp add: random_tint_st_eq deref_def nth_append)
  show "case fixed_crops_st py s p crop_shape crop_type of
            Inl e \<Rightarrow> fixed_crops py (s ! p) crop_shape crop_type = Inl e
          | Inr (s', r) \<Rightarrow>
              s' = s \<and> fixed_crops py (s ! p) crop_shape crop_type = Inr (deref s' r)"
    using fixed_crops_st_cases [of py s p crop_shape crop_type]
    by (auto simp: deref_def)
qed

theorem input_unchanged_witness:
  "0 < length [demo] \<and>
   random_flips_st [demo] 0 [0, 1] = ([demo, demo_flipped], Buf 1) \<and>
   (case random_flips_st [demo] 0 [0, 1] of (s', r) \<Rightarrow>
      s' ! 0 = [demo] ! 0 \<and> take (length [demo]) s' = [demo] \<and>
      deref s' r = random_flips ([demo] ! 0) [0, 1]) \<and>
   (case random_crops_st [demo] 0 (1, 2) 0 0 of
      Inl e \<Rightarrow> random_crops ([demo] ! 0) (1, 2) 0 0 = Inl e
    | Inr (s', r) \<Rightarrow>
        s' ! 0 = [demo] ! 0 \<and> take (length [demo]) s' = [demo] \<and>
        random_crops ([demo] ! 0) (1, 2) 0 0 = Inr (deref s' r)) \<and>
   (case random_contrast_st [demo] 0 (1, 3) 2 of (s', r) \<Rightarrow>
      s' ! 0 = [demo] ! 0 \<and> take (length [demo]) s' = [demo] \<and>
      deref s' r = random_contrast ([demo] ! 0) (1, 3) 2) \<and>
   (case random_tint_st [demo] 0 (1, 3) [[0], [1 / 2]] of (s', r) \<Rightarrow>
      s' ! 0 = [demo] ! 0 \<and> take (length [demo]) s' = [demo] \<and>
      deref s' r = random_tint ([demo] ! 0) (1, 3) [[0], [1 / 2]]) \<and>
   (case fixed_crops_st Python3 [demo] 0 (1, 2) ''br'' of
      Inl e \<Rightarrow> fixed_crops Python3 ([demo] ! 0) (1, 2) ''br'' = Inl e
    | Inr (s', r) \<Rightarrow>
        s' = [demo] \<and> fixed_crops Python3 ([demo] ! 0) (1, 2) ''br'' = Inr (deref s' r))"
proof -
  have h: "0 < length [demo]"
    by simp
  have v: "random_flips_st [demo] 0 [0, 1] = ([demo, demo_flipped], Buf 1)"
    by code_simp
  note t = input_unchanged [OF h, where msk = "[0, 1]" and crop_shape = "(1, 2)" and x = 0
      and y = 0 and scale = "(1, 3)" and scalar = 2 and us = "[[0], [1 / 2]]"
      and py = Python3 and crop_type = "''br''"]
  from h v t [THEN conjunct1] t [THEN conjunct2, THEN conjunct1]
    t [THEN conjunct2, THEN conjunct2, THEN conjunct1]
    t [THEN conjunct2, THEN conjunct2, THEN conjunct2, THEN conjunct1]
    t [THEN conjunct2, THEN conjunct2, THEN conjunct2, THEN conjunct2]
  show ?thesis
    by (intro conjI)
qed

end
